theory Spec2Isabelle
  imports Complex_Main "HOL-Library.FSet"
begin

section \<open>JavaScript values\<close>

text \<open>
  The telemetry server (\<^verbatim>\<open>server.js\<close>, the revision with the event and statistics endpoints)
  receives JSON bodies and query strings and branches on
  \<^verbatim>\<open>typeof\<close>, truthiness and strict equality. A JavaScript number is an IEEE double: the finite ones are
  embedded in the reals (\<^verbatim>\<open>Math.floor\<close>, \<^verbatim>\<open>Math.min\<close> and \<^verbatim>\<open>Math.max\<close> are exact on them), the three
  non-finite ones are constructors of their own. A string is a list of code units; the validators
  accept ASCII code units only, which \<^typ>\<open>char\<close> covers.
\<close>

datatype js_number = Finite real | NaN | PosInfinity | NegInfinity

datatype js_value =
    JUndefined
  | JNull
  | JBool bool
  | JNum js_number
  | JStr string
  | JArr "js_value list"
  | JObj "(string \<times> js_value) list"

text \<open>
  Property access \<^verbatim>\<open>body.event\<close>: reading a property of \<^verbatim>\<open>null\<close> or \<^verbatim>\<open>undefined\<close> throws a TypeError;
  a primitive or an array has no property of the names the handler reads; an object yields the
  property's value or \<^verbatim>\<open>undefined\<close>.
\<close>

fun get_prop :: "js_value \<Rightarrow> string \<Rightarrow> string + js_value" where
  "get_prop JNull k =
     Inl (''Cannot read properties of null (reading '' @ [CHR 0x27] @ k @ [CHR 0x27] @ '')'')"
| "get_prop JUndefined k =
     Inl (''Cannot read properties of undefined (reading '' @ [CHR 0x27] @ k @ [CHR 0x27] @ '')'')"
| "get_prop (JObj kvs) k = Inr (case map_of kvs k of None \<Rightarrow> JUndefined | Some v \<Rightarrow> v)"
| "get_prop v k = Inr JUndefined"

section \<open>Regular expressions of the validators\<close>

text \<open>
  Both validators test a pattern of the shape \<^verbatim>\<open>/^[class]{lo,hi}$/i\<close>. The pattern is data; its
  meaning follows ECMAScript: with the \<^verbatim>\<open>i\<close> flag and without the \<^verbatim>\<open>u\<close> flag a code unit matches
  a class when its canonical form (upper case, for an ASCII letter) is the canonical form of a member
  of the class; a code unit from 128 on never canonicalises to an ASCII one.
\<close>

datatype class_atom = Single char | Range char char

record pattern =
  cls :: "class_atom list"
  rep_min :: nat
  rep_max :: nat
  ignore_case :: bool

fun atom_chars :: "class_atom \<Rightarrow> char list" where
  "atom_chars (Single c) = [c]"
| "atom_chars (Range a b) = map char_of [of_char a ..< Suc (of_char b) :: nat]"

definition canonicalize :: "bool \<Rightarrow> char \<Rightarrow> char" where
  "canonicalize ic c =
     (if ic \<and> 97 \<le> (of_char c :: nat) \<and> (of_char c :: nat) \<le> 122
      then char_of ((of_char c :: nat) - 32) else c)"

definition class_matches :: "pattern \<Rightarrow> char \<Rightarrow> bool" where
  "class_matches p c =
     (canonicalize (ignore_case p) c
        \<in> set (map (canonicalize (ignore_case p)) (concat (map atom_chars (cls p)))))"

text \<open>
  \<open>match_rep ok lo hi s\<close>: the rest \<open>s\<close> of the input is matched by \<^verbatim>\<open>[class]{lo,hi}$\<close>. While input
  remains, \<^verbatim>\<open>$\<close> (no \<^verbatim>\<open>m\<close> flag: end of input only) cannot match, so the repetition has to take one
  more code unit; at the end of the input the lower bound must have been reached.
\<close>

fun match_rep :: "(char \<Rightarrow> bool) \<Rightarrow> nat \<Rightarrow> nat \<Rightarrow> string \<Rightarrow> bool" where
  "match_rep ok lo hi [] = (lo = 0)"
| "match_rep ok lo hi (c # cs) = (0 < hi \<and> ok c \<and> match_rep ok (lo - 1) (hi - 1) cs)"

definition regex_test :: "pattern \<Rightarrow> string \<Rightarrow> bool" where
  "regex_test p s = match_rep (class_matches p) (rep_min p) (rep_max p) s"

definition event_name_re :: pattern where
  "event_name_re =
     \<lparr>cls = [Range CHR ''a'' CHR ''z'', Range CHR ''0'' CHR ''9'',
             Single CHR ''_'', Single CHR '':'', Single CHR ''-''],
      rep_min = 1, rep_max = 64, ignore_case = True\<rparr>"

definition session_id_re :: pattern where
  "session_id_re =
     \<lparr>cls = [Range CHR ''a'' CHR ''z'', Range CHR ''0'' CHR ''9'', Single CHR ''-''],
      rep_min = 6, rep_max = 80, ignore_case = True\<rparr>"

section \<open>Validators and clamping\<close>

fun isValidEventName :: "js_value \<Rightarrow> bool" where
  "isValidEventName (JStr s) = regex_test event_name_re s"
| "isValidEventName v = False"

fun isValidSessionId :: "js_value \<Rightarrow> bool" where
  "isValidSessionId (JStr s) = regex_test session_id_re s"
| "isValidSessionId v = False"

fun clampDays :: "js_number \<Rightarrow> int" where
  "clampDays (Finite x) = min 30 (max 1 \<lfloor>x\<rfloor>)"
| "clampDays n = 7"

text \<open>
  \<^verbatim>\<open>Number.parseInt(s, 10)\<close>: leading white space is skipped, a sign is optional, the longest prefix
  of decimal digits is the value, and no digit at all gives \<^verbatim>\<open>NaN\<close>. A value that rounds beyond the
  largest double is an infinity. (From \<open>2 ^ 53\<close> on the double is the nearest representable number;
  the model keeps the exact integer, which is on the same side of every bound \<open>clampDays\<close> tests.)
\<close>

definition is_space :: "char \<Rightarrow> bool" where
  "is_space c = ((of_char c :: nat) \<in> {9, 10, 11, 12, 13, 32, 160})"

definition is_digit :: "char \<Rightarrow> bool" where
  "is_digit c = (48 \<le> (of_char c :: nat) \<and> (of_char c :: nat) \<le> 57)"

definition digits_value :: "string \<Rightarrow> int" where
  "digits_value ds = foldl (\<lambda>a c. 10 * a + (int (of_char c) - 48)) 0 ds"

definition parseInt :: "string \<Rightarrow> js_number" where
  "parseInt s =
     (let t = dropWhile is_space s;
          neg = (t \<noteq> [] \<and> hd t = CHR ''-'');
          u = (if t \<noteq> [] \<and> (hd t = CHR ''-'' \<or> hd t = CHR ''+'') then tl t else t);
          ds = takeWhile is_digit u;
          n = digits_value ds
      in if ds = [] then NaN
         else if 2 ^ 1024 - 2 ^ 970 \<le> n then (if neg then NegInfinity else PosInfinity)
         else Finite (of_int (if neg then - n else n)))"

section \<open>Calendar dates\<close>

text \<open>
  \<^verbatim>\<open>utcDateOffset(daysBack)\<close> reads the clock, moves the UTC day of the month back by \<open>daysBack\<close> (the
  \<^verbatim>\<open>Date\<close> object carries into earlier months and years) and keeps the first ten code units of the
  ISO rendering. The clock reading is a parameter: milliseconds since the epoch. The proleptic
  Gregorian date of a day number is computed by the usual era arithmetic; years outside 0..9999 are
  rendered with a sign and six digits, as \<^verbatim>\<open>toISOString\<close> does. (Beyond the range of \<^verbatim>\<open>Date\<close>, which
  no clock reading of a running server reaches, \<^verbatim>\<open>toISOString\<close> throws; the model is total.)
\<close>

definition ms_per_day :: int where
  "ms_per_day = 86400000"

definition civil_from_days :: "int \<Rightarrow> int \<times> int \<times> int" where
  "civil_from_days dn =
     (let z = dn + 719468;
          era = z div 146097;
          doe = z - era * 146097;
          yoe = (doe - doe div 1460 + doe div 36524 - doe div 146096) div 365;
          doy = doe - (365 * yoe + yoe div 4 - yoe div 100);
          mp = (5 * doy + 2) div 153;
          d = doy - (153 * mp + 2) div 5 + 1;
          m = (if mp < 10 then mp + 3 else mp - 9);
          y = yoe + era * 400 + (if m \<le> 2 then 1 else 0)
      in (y, m, d))"

definition digit_char :: "nat \<Rightarrow> char" where
  "digit_char n = ''0123456789'' ! (n mod 10)"

definition pad2 :: "nat \<Rightarrow> string" where
  "pad2 n = [digit_char (n div 10), digit_char n]"

definition pad4 :: "nat \<Rightarrow> string" where
  "pad4 n = [digit_char (n div 1000), digit_char (n div 100), digit_char (n div 10), digit_char n]"

definition pad6 :: "nat \<Rightarrow> string" where
  "pad6 n = [digit_char (n div 100000), digit_char (n div 10000)] @ pad4 n"

definition iso_date :: "int \<Rightarrow> string" where
  "iso_date dn =
     (case civil_from_days dn of (y, m, d) \<Rightarrow>
        take 10
          ((if 0 \<le> y \<and> y \<le> 9999 then pad4 (nat y)
            else (if y < 0 then CHR ''-'' else CHR ''+'') # pad6 (nat \<bar>y\<bar>))
           @ ''-'' @ pad2 (nat m) @ ''-'' @ pad2 (nat d)))"

definition utcDateOffset :: "int \<Rightarrow> int \<Rightarrow> string" where
  "utcDateOffset now daysBack = iso_date (now div ms_per_day - daysBack)"

section \<open>The key-value store\<close>

text \<open>
  The store is reached through a client library; its commands are modelled by what they do to the
  data. A day's Event Counter Map is a hash (fields in insertion order, each with an integer
  count), a day's Session Set is a set of strings; a key that was never written reads as the empty
  hash and the empty set. The store keeps a count as an integer; the reply of \<^verbatim>\<open>HGETALL\<close>, as the
  client resolves it, is an object that maps each field to the decimal text of its count.
  Counts are unbounded integers (the store's 64-bit limit is out of reach of increments by one),
  and the passing of time that lets a key expire is not modelled: \<open>ttl\<close> records the time to live
  the last write asked for.
\<close>

record redis_db =
  hashes :: "string \<Rightarrow> (string \<times> int) list"
  sets :: "string \<Rightarrow> string fset"
  ttl :: "string \<Rightarrow> nat option"

definition empty_db :: redis_db where
  "empty_db = \<lparr>hashes = (\<lambda>k. []), sets = (\<lambda>k. {||}), ttl = (\<lambda>k. None)\<rparr>"

fun hash_incr :: "(string \<times> int) list \<Rightarrow> string \<Rightarrow> int \<Rightarrow> (string \<times> int) list" where
  "hash_incr [] f n = [(f, n)]"
| "hash_incr ((k, v) # h) f n = (if k = f then (k, v + n) # h else (k, v) # hash_incr h f n)"

datatype command =
    Hincrby string string int
  | Sadd string string
  | Expire string nat

fun apply_command :: "redis_db \<Rightarrow> command \<Rightarrow> redis_db" where
  "apply_command db (Hincrby key field n) =
     db\<lparr>hashes := (hashes db)(key := hash_incr (hashes db key) field n)\<rparr>"
| "apply_command db (Sadd key member) =
     db\<lparr>sets := (sets db)(key := finsert member (sets db key))\<rparr>"
| "apply_command db (Expire key secs) =
     (if hashes db key \<noteq> [] \<or> sets db key \<noteq> {||} then db\<lparr>ttl := (ttl db)(key := Some secs)\<rparr>
      else db)"

definition exec :: "redis_db \<Rightarrow> command list \<Rightarrow> redis_db" where
  "exec db tx = foldl apply_command db tx"

function dec_nat :: "nat \<Rightarrow> string" where
  "dec_nat n = (if n < 10 then [digit_char n] else dec_nat (n div 10) @ [digit_char n])"
  by pat_completeness auto
termination
  by (relation "measure (\<lambda>n. n)") auto

declare dec_nat.simps [simp del]

definition decimal :: "int \<Rightarrow> string" where
  "decimal i = (if i < 0 then CHR ''-'' # dec_nat (nat (- i)) else dec_nat (nat i))"

definition hgetall :: "redis_db \<Rightarrow> string \<Rightarrow> js_value" where
  "hgetall db key = JObj (map (\<lambda>(f, n). (f, JStr (decimal n))) (hashes db key))"

definition scard :: "redis_db \<Rightarrow> string \<Rightarrow> nat" where
  "scard db key = fcard (sets db key)"

text \<open>
  What a rejected promise or a \<^verbatim>\<open>throw\<close> carries: an \<^verbatim>\<open>Error\<close> object with its message, or any other
  value (with its \<^verbatim>\<open>String(...)\<close> rendering). \<open>error_text\<close> is the idiom
  \<^verbatim>\<open>err instanceof Error ? err.message : String(err)\<close>.
\<close>

datatype thrown = ErrorObject string | OtherValue string

fun error_text :: "thrown \<Rightarrow> string" where
  "error_text (ErrorObject m) = m"
| "error_text (OtherValue r) = r"

text \<open>
  How \<^verbatim>\<open>await tx.exec()\<close> ends: the store applied the transaction and replied; the transaction was
  not applied and the promise rejected; or the store applied it and the reply never arrived, so the
  promise rejected all the same.
\<close>

datatype tx_outcome = Committed | Aborted thrown | ReplyLost thrown

section \<open>Server state\<close>

record redis_state =
  enabled :: bool
  connected :: bool
  lastError :: "string option"

text \<open>\<open>redis\<close> is \<^verbatim>\<open>null\<close> (\<open>None\<close>) when no store address was configured.\<close>

record server =
  redis :: "redis_db option"
  redisState :: redis_state
  adminToken :: string

section \<open>Event ingestion\<close>

text \<open>
  \<^verbatim>\<open>storeEvent({eventName, sessionId})\<close>. The handler calls it with a name that passed
  \<open>isValidEventName\<close>, hence a string; the session identifier is whatever the body held. The
  parameters \<open>now\<close> and \<open>outcome\<close> are the clock reading of \<^verbatim>\<open>utcDateOffset(0)\<close> and the way
  \<^verbatim>\<open>await tx.exec()\<close> ends.
\<close>

definition ttl_seconds :: nat where
  "ttl_seconds = 60 * 60 * 24 * 120"

definition event_key :: "string \<Rightarrow> string" where
  "event_key date = ''keccak:events:'' @ date"

definition session_key :: "string \<Rightarrow> string" where
  "session_key date = ''keccak:sessions:'' @ date"

definition store_tx :: "string \<Rightarrow> string \<Rightarrow> js_value \<Rightarrow> command list" where
  "store_tx date eventName sessionId =
     [Hincrby (event_key date) eventName 1,
      Hincrby (event_key date) ''_total'' 1,
      Expire (event_key date) ttl_seconds]
     @ (case sessionId of
          JStr sid \<Rightarrow>
            if isValidSessionId sessionId
            then [Sadd (session_key date) sid, Expire (session_key date) ttl_seconds]
            else []
        | _ \<Rightarrow> [])"

definition record_error :: "thrown \<Rightarrow> server \<Rightarrow> server" where
  "record_error err s = s\<lparr>redisState := (redisState s)\<lparr>lastError := Some (error_text err)\<rparr>\<rparr>"

definition storeEvent :: "int \<Rightarrow> tx_outcome \<Rightarrow> string \<Rightarrow> js_value \<Rightarrow> server \<Rightarrow> bool \<times> server" where
  "storeEvent now outcome eventName sessionId s =
     (case redis s of
        None \<Rightarrow> (False, s)
      | Some db \<Rightarrow>
          if \<not> connected (redisState s) then (False, s)
          else
            let tx = store_tx (utcDateOffset now 0) eventName sessionId
            in case outcome of
                 Committed \<Rightarrow> (True, s\<lparr>redis := Some (exec db tx)\<rparr>)
               | Aborted err \<Rightarrow> (False, record_error err s)
               | ReplyLost err \<Rightarrow> (False, record_error err (s\<lparr>redis := Some (exec db tx)\<rparr>)))"

section \<open>Statistics\<close>

record day_stats =
  date :: string
  events :: js_value
  uniqueSessions :: nat

text \<open>
  \<^verbatim>\<open>buildStats(days)\<close>: the loop reads the clock anew at every iteration (\<open>clock i\<close> is the reading at
  iteration \<open>i\<close>) and awaits the two reads of the day together; \<open>fault i\<close> is what that await throws,
  if it throws. The reply of \<^verbatim>\<open>hgetall\<close> is stored in the entry as it came; only the cardinality goes
  through \<^verbatim>\<open>Number\<close>.
\<close>

function buildStats_loop ::
  "(nat \<Rightarrow> int) \<Rightarrow> (nat \<Rightarrow> thrown option) \<Rightarrow> redis_db \<Rightarrow> int \<Rightarrow> nat \<Rightarrow> day_stats list
    \<Rightarrow> thrown + day_stats list" where
  "buildStats_loop clock fault db days i result =
     (if int i < days then
        (let date = utcDateOffset (clock i) (int i);
             eventKey = event_key date;
             sessionKey = session_key date
         in case fault i of
              Some err \<Rightarrow> Inl err
            | None \<Rightarrow>
                buildStats_loop clock fault db days (i + 1)
                  (result @ [\<lparr>date = date, events = hgetall db eventKey,
                              uniqueSessions = scard db sessionKey\<rparr>]))
      else Inr result)"
  by pat_completeness auto
termination
  by (relation "measure (\<lambda>(clock, fault, db, days, i, result). nat (days - int i))") auto

definition buildStats ::
  "(nat \<Rightarrow> int) \<Rightarrow> (nat \<Rightarrow> thrown option) \<Rightarrow> redis_db \<Rightarrow> int \<Rightarrow> thrown + day_stats list" where
  "buildStats clock fault db days = buildStats_loop clock fault db days 0 []"

section \<open>The HTTP handler\<close>

text \<open>
  A request as the handler sees it: the method, the path and the query parameters of the parsed
  URL, the header \<^verbatim>\<open>x-admin-token\<close> (\<open>None\<close> when absent), and the body as the chunks of its
  \<^verbatim>\<open>data\<close> events followed by \<^verbatim>\<open>end\<close> or \<^verbatim>\<open>error\<close>.
\<close>

datatype stream_end = End | StreamError thrown

record request =
  req_method :: string
  pathname :: string
  searchParams :: "(string \<times> string) list"
  x_admin_token :: "string option"
  body_chunks :: "string list"
  body_end :: stream_end

text \<open>
  What a request meets outside the program: the JSON parser (applied to the decoded body), the
  clock, the fate of the store operations, the page file and the liveness probe.
\<close>

record env =
  json_parse :: "string \<Rightarrow> js_value option"
  clock :: "nat \<Rightarrow> int"
  tx_result :: tx_outcome
  read_fault :: "nat \<Rightarrow> thrown option"
  index_file :: "string option"
  ping_result :: "thrown + nat"

text \<open>The payloads the handler serialises, one constructor per shape of object.\<close>

datatype payload =
    Html string
  | Text string
  | ErrorBody string
  | EventAccepted bool bool
  | RedisUnavailable "string option"
  | StatsQueryFailed string
  | Stats int "day_stats list"
  | Health int bool bool "nat option" "string option"

record response =
  status :: nat
  content_type :: string
  body :: payload

text \<open>A request is answered, or the handler's promise rejects with nothing written.\<close>

datatype outcome = Replied response | Unhandled string

definition json :: "nat \<Rightarrow> payload \<Rightarrow> response" where
  "json statusCode p =
     \<lparr>status = statusCode, content_type = ''application/json; charset=utf-8'', body = p\<rparr>"

definition text_res :: "nat \<Rightarrow> string \<Rightarrow> response" where
  "text_res statusCode p =
     \<lparr>status = statusCode, content_type = ''text/plain; charset=utf-8'', body = Text p\<rparr>"

definition serveIndex :: "env \<Rightarrow> response" where
  "serveIndex e =
     (case index_file e of
        Some html \<Rightarrow> \<lparr>status = 200, content_type = ''text/html; charset=utf-8'', body = Html html\<rparr>
      | None \<Rightarrow> text_res 500 ''Unable to load index.html'')"

text \<open>
  \<^verbatim>\<open>readJsonBody(req, maxBytes)\<close>. \<open>read_chunks\<close> is the \<^verbatim>\<open>data\<close> listener run over the chunks in
  arrival order: the first chunk that takes the total over the cap rejects the promise (and destroys
  the request, so the reply the handler then writes may not reach the client; the model records
  the reply that is written). The \<^verbatim>\<open>end\<close> listener resolves to the empty object when no chunk was
  kept, and parses otherwise.
\<close>

fun read_chunks :: "nat \<Rightarrow> nat \<Rightarrow> string list \<Rightarrow> string list \<Rightarrow> thrown + string list" where
  "read_chunks maxBytes total_bytes chunks [] = Inr chunks"
| "read_chunks maxBytes total_bytes chunks (chunk # rest) =
     (if total_bytes + length chunk > maxBytes then Inl (ErrorObject ''body_too_large'')
      else read_chunks maxBytes (total_bytes + length chunk) (chunks @ [chunk]) rest)"

definition readJsonBody :: "(string \<Rightarrow> js_value option) \<Rightarrow> request \<Rightarrow> nat \<Rightarrow> thrown + js_value" where
  "readJsonBody parse req maxBytes =
     (case read_chunks maxBytes 0 [] (body_chunks req) of
        Inl err \<Rightarrow> Inl err
      | Inr chunks \<Rightarrow>
          (case body_end req of
             StreamError err \<Rightarrow> Inl err
           | End \<Rightarrow>
               if length chunks = 0 then Inr (JObj [])
               else (case parse (concat chunks) of
                       Some v \<Rightarrow> Inr v
                     | None \<Rightarrow> Inl (ErrorObject ''invalid_json''))))"

definition buildHealth :: "env \<Rightarrow> server \<Rightarrow> payload \<times> server" where
  "buildHealth e s =
     (let (pingMs, s') =
            (case redis s of
               None \<Rightarrow> (None, s)
             | Some db \<Rightarrow>
                 if \<not> connected (redisState s) then (None, s)
                 else (case ping_result e of
                         Inr ms \<Rightarrow> (Some ms, s)
                       | Inl err \<Rightarrow>
                           (None, s\<lparr>redisState := (redisState s)
                                      \<lparr>connected := False, lastError := Some (error_text err)\<rparr>\<rparr>)))
      in (Health (clock e 0) (enabled (redisState s')) (connected (redisState s')) pingMs
            (lastError (redisState s')), s'))"

text \<open>
  The branch \<^verbatim>\<open>POST /api/events\<close>. Reading \<^verbatim>\<open>body.event\<close> of a body that parsed to \<^verbatim>\<open>null\<close>
  throws outside every \<^verbatim>\<open>try\<close>. A name that passed \<open>isValidEventName\<close> is a string, so the last
  case of the inner distinction is never taken.
\<close>

definition post_events :: "env \<Rightarrow> request \<Rightarrow> server \<Rightarrow> outcome \<times> server" where
  "post_events e req s =
     (case readJsonBody (json_parse e) req (64 * 1024) of
        Inl err \<Rightarrow>
          (Replied (json 400 (ErrorBody (case err of ErrorObject m \<Rightarrow> m
                                          | OtherValue r \<Rightarrow> ''invalid_request''))), s)
      | Inr b \<Rightarrow>
          (case get_prop b ''event'' of
             Inl err \<Rightarrow> (Unhandled err, s)
           | Inr eventName \<Rightarrow>
               (case get_prop b ''sessionId'' of
                  Inl err \<Rightarrow> (Unhandled err, s)
                | Inr sessionId \<Rightarrow>
                    if \<not> isValidEventName eventName
                    then (Replied (json 400 (ErrorBody ''invalid_event_name'')), s)
                    else (case eventName of
                            JStr name \<Rightarrow>
                              (case storeEvent (clock e 0) (tx_result e) name sessionId s of
                                 (stored, s') \<Rightarrow>
                                   (Replied (json 202
                                      (EventAccepted stored (enabled (redisState s')))), s'))
                          | _ \<Rightarrow> (Replied (json 400 (ErrorBody ''invalid_event_name'')), s)))))"

text \<open>
  The branch \<^verbatim>\<open>GET /api/stats\<close>. \<open>suppliedToken\<close> is
  \<^verbatim>\<open>req.headers["x-admin-token"] || url.searchParams.get("token")\<close>: the header when it is truthy (a
  string that is not empty), the query parameter (\<^verbatim>\<open>null\<close> when absent) otherwise. \<open>requested_days\<close>
  is \<^verbatim>\<open>clampDays(Number.parseInt(url.searchParams.get("days") || "7", 10))\<close>.
\<close>

definition searchParams_get :: "(string \<times> string) list \<Rightarrow> string \<Rightarrow> string option" where
  "searchParams_get ps name = map_of ps name"

definition suppliedToken :: "request \<Rightarrow> string option" where
  "suppliedToken req =
     (case x_admin_token req of
        Some h \<Rightarrow> if h \<noteq> [] then Some h else searchParams_get (searchParams req) ''token''
      | None \<Rightarrow> searchParams_get (searchParams req) ''token'')"

definition requested_days :: "request \<Rightarrow> int" where
  "requested_days req =
     clampDays (parseInt (case searchParams_get (searchParams req) ''days'' of
                            Some v \<Rightarrow> if v \<noteq> [] then v else ''7''
                          | None \<Rightarrow> ''7''))"

definition get_stats :: "env \<Rightarrow> request \<Rightarrow> server \<Rightarrow> outcome \<times> server" where
  "get_stats e req s =
     (if adminToken s = [] then (Replied (json 403 (ErrorBody ''admin_token_not_configured'')), s)
      else if suppliedToken req \<noteq> Some (adminToken s)
      then (Replied (json 401 (ErrorBody ''unauthorized'')), s)
      else (case redis s of
              None \<Rightarrow> (Replied (json 503 (RedisUnavailable (lastError (redisState s)))), s)
            | Some db \<Rightarrow>
                if \<not> connected (redisState s)
                then (Replied (json 503 (RedisUnavailable (lastError (redisState s)))), s)
                else (let days = requested_days req
                      in case buildStats (clock e) (read_fault e) db days of
                           Inr stats \<Rightarrow> (Replied (json 200 (Stats days stats)), s)
                         | Inl err \<Rightarrow>
                             (Replied (json 500 (StatsQueryFailed (error_text err))), s))))"

definition handle :: "env \<Rightarrow> request \<Rightarrow> server \<Rightarrow> outcome \<times> server" where
  "handle e req s =
     (if req_method req = ''GET''
         \<and> (pathname req = ''/'' \<or> pathname req = ''/index.html'' \<or> pathname req = ''/keccak'')
      then (Replied (serveIndex e), s)
      else if req_method req = ''GET'' \<and> pathname req = ''/api/health''
      then (case buildHealth e s of (p, s') \<Rightarrow> (Replied (json 200 p), s'))
      else if req_method req = ''POST'' \<and> pathname req = ''/api/events'' then post_events e req s
      else if req_method req = ''GET'' \<and> pathname req = ''/api/stats'' then get_stats e req s
      else (Replied (text_res 404 ''Not found''), s))"

section \<open>Notions the properties are stated with\<close>

text \<open>The entry \<open>buildStats\<close> pushes at iteration \<open>i\<close>.\<close>

definition day_entry :: "(nat \<Rightarrow> int) \<Rightarrow> redis_db \<Rightarrow> nat \<Rightarrow> day_stats" where
  "day_entry clk db i =
     \<lparr>date = utcDateOffset (clk i) (int i),
      events = hgetall db (event_key (utcDateOffset (clk i) (int i))),
      uniqueSessions = scard db (session_key (utcDateOffset (clk i) (int i)))\<rparr>"

text \<open>
  The count of a field of an Event Counter Map (0 when the field is absent), the count under the
  key \<^verbatim>\<open>_total\<close>, and the sum of the counts of all other fields.
\<close>

definition field_count :: "(string \<times> int) list \<Rightarrow> string \<Rightarrow> int" where
  "field_count h f = (case map_of h f of None \<Rightarrow> 0 | Some n \<Rightarrow> n)"

definition total_count :: "(string \<times> int) list \<Rightarrow> int" where
  "total_count h = field_count h ''_total''"

definition named_sum :: "(string \<times> int) list \<Rightarrow> int" where
  "named_sum h = sum_list (map snd (filter (\<lambda>kv. fst kv \<noteq> ''_total'') h))"

definition counters_consistent :: "server \<Rightarrow> bool" where
  "counters_consistent s =
     (case redis s of
        None \<Rightarrow> True
      | Some db \<Rightarrow> \<forall>key. total_count (hashes db key) = named_sum (hashes db key))"

text \<open>
  An object whose values are all integer numbers: what a map from strings to integers is in
  JavaScript.
\<close>

fun is_int_number :: "js_value \<Rightarrow> bool" where
  "is_int_number (JNum (Finite x)) = (of_int \<lfloor>x\<rfloor> = x)"
| "is_int_number v = False"

fun int_counts :: "js_value \<Rightarrow> bool" where
  "int_counts (JObj kvs) = list_all (\<lambda>kv. is_int_number (snd kv)) kvs"
| "int_counts v = False"

text \<open>A sequence of ingestions, each with its clock reading and the fate of its transaction.\<close>

fun ingest_all :: "(int \<times> tx_outcome \<times> string \<times> js_value) list \<Rightarrow> server \<Rightarrow> server" where
  "ingest_all [] s = s"
| "ingest_all ((now, oc, name, sid) # calls) s =
     ingest_all calls (snd (storeEvent now oc name sid s))"

section \<open>Example inputs\<close>

text \<open>The clock of the examples reads 2026-11-02T08:00:00Z.\<close>

definition example_now :: int where
  "example_now = 1793606400000"

text \<open>
  A clock that passes midnight during a call: the first reading is the last millisecond of
  2026-11-02, every later one the first of 2026-11-03.
\<close>

definition midnight_clock :: "nat \<Rightarrow> int" where
  "midnight_clock k = (if k = 0 then 1793663999999 else 1793664000000)"

text \<open>The store after one committed ingestion of \<^verbatim>\<open>build_trace\<close> on 2026-11-02.\<close>

definition traced_db :: redis_db where
  "traced_db = exec empty_db (store_tx ''2026-11-02'' ''build_trace'' (JStr ''abc-123''))"

definition offline_server :: server where
  "offline_server =
     \<lparr>redis = None, redisState = \<lparr>enabled = False, connected = False, lastError = None\<rparr>,
      adminToken = ''s3cret''\<rparr>"

definition live_server :: server where
  "live_server =
     \<lparr>redis = Some empty_db, redisState = \<lparr>enabled = True, connected = True, lastError = None\<rparr>,
      adminToken = ''s3cret''\<rparr>"

definition broken_server :: server where
  "broken_server =
     \<lparr>redis = Some empty_db,
      redisState = \<lparr>enabled = True, connected = False, lastError = Some ''connect ECONNREFUSED''\<rparr>,
      adminToken = ''s3cret''\<rparr>"

definition quiet_env :: env where
  "quiet_env =
     \<lparr>json_parse = (\<lambda>raw. None), clock = (\<lambda>k. example_now), tx_result = Committed,
      read_fault = (\<lambda>i. None), index_file = None, ping_result = Inr 1\<rparr>"

definition faulty_env :: env where
  "faulty_env =
     \<lparr>json_parse = (\<lambda>raw. None), clock = (\<lambda>k. example_now), tx_result = Committed,
      read_fault = (\<lambda>i. if i = 1 then Some (ErrorObject ''Connection is closed.'') else None),
      index_file = None, ping_result = Inr 1\<rparr>"

definition trace_body :: string where
  "trace_body = ''{\"event\":\"build_trace\"}''"

definition trace_env :: "tx_outcome \<Rightarrow> env" where
  "trace_env oc =
     \<lparr>json_parse = (\<lambda>raw. if raw = trace_body then Some (JObj [(''event'', JStr ''build_trace'')])
                          else None),
      clock = (\<lambda>k. example_now), tx_result = oc,
      read_fault = (\<lambda>i. None), index_file = None, ping_result = Inr 1\<rparr>"

definition trace_post :: request where
  "trace_post =
     \<lparr>req_method = ''POST'', pathname = ''/api/events'', searchParams = [],
      x_admin_token = None, body_chunks = [trace_body], body_end = End\<rparr>"

definition empty_post :: request where
  "empty_post =
     \<lparr>req_method = ''POST'', pathname = ''/api/events'', searchParams = [],
      x_admin_token = None, body_chunks = [], body_end = End\<rparr>"

definition empty_header_request :: request where
  "empty_header_request =
     \<lparr>req_method = ''GET'', pathname = ''/api/stats'',
      searchParams = [(''token'', ''s3cret''), (''days'', ''1'')],
      x_admin_token = Some [], body_chunks = [], body_end = End\<rparr>"

definition both_tokens_request :: request where
  "both_tokens_request =
     \<lparr>req_method = ''GET'', pathname = ''/api/stats'', searchParams = [(''token'', ''s3cret'')],
      x_admin_token = Some ''guess'', body_chunks = [], body_end = End\<rparr>"

definition admin_request :: request where
  "admin_request =
     \<lparr>req_method = ''GET'', pathname = ''/api/stats'', searchParams = [(''days'', ''3'')],
      x_admin_token = Some ''s3cret'', body_chunks = [], body_end = End\<rparr>"

definition total_body :: string where
  "total_body = ''{\"event\":\"_total\",\"sessionId\":\"abc-123\"}''"

definition total_env :: env where
  "total_env =
     \<lparr>json_parse = (\<lambda>raw. if raw = total_body
                          then Some (JObj [(''event'', JStr ''_total''), (''sessionId'', JStr ''abc-123'')])
                          else None),
      clock = (\<lambda>k. example_now), tx_result = Committed,
      read_fault = (\<lambda>i. None), index_file = None, ping_result = Inr 1\<rparr>"

definition total_post :: request where
  "total_post =
     \<lparr>req_method = ''POST'', pathname = ''/api/events'', searchParams = [],
      x_admin_token = None, body_chunks = [total_body], body_end = End\<rparr>"

section \<open>Properties of the validators and of clamping\<close>

lemma match_rep_iff:
  "match_rep ok lo hi s \<longleftrightarrow> lo \<le> length s \<and> length s \<le> hi \<and> list_all ok s"
  by (induction s arbitrary: lo hi) auto

lemma event_name_class:
  "class_matches event_name_re c
     = (c \<in> set ''ABCDEFGHIJKLMNOPQRSTUVWXYZabcdefghijklmnopqrstuvwxyz0123456789_:-'')"
proof -
  have "\<forall>c. class_matches event_name_re c
     = (c \<in> set ''ABCDEFGHIJKLMNOPQRSTUVWXYZabcdefghijklmnopqrstuvwxyz0123456789_:-'')"
    by code_simp
  then show ?thesis by blast
qed

lemma session_id_class:
  "class_matches session_id_re c
     = (c \<in> set ''ABCDEFGHIJKLMNOPQRSTUVWXYZabcdefghijklmnopqrstuvwxyz0123456789-'')"
proof -
  have "\<forall>c. class_matches session_id_re c
     = (c \<in> set ''ABCDEFGHIJKLMNOPQRSTUVWXYZabcdefghijklmnopqrstuvwxyz0123456789-'')"
    by code_simp
  then show ?thesis by blast
qed

lemma event_name_bounds: "rep_min event_name_re = 1" "rep_max event_name_re = 64"
  by (simp_all add: event_name_re_def)

lemma session_id_bounds: "rep_min session_id_re = 6" "rep_max session_id_re = 80"
  by (simp_all add: session_id_re_def)

lemma regex_test_event_name:
  "regex_test event_name_re s \<longleftrightarrow>
     1 \<le> length s \<and> length s \<le> 64
     \<and> set s \<subseteq> set ''ABCDEFGHIJKLMNOPQRSTUVWXYZabcdefghijklmnopqrstuvwxyz0123456789_:-''"
  unfolding regex_test_def match_rep_iff event_name_bounds list_all_iff
  using event_name_class by blast

lemma regex_test_session_id:
  "regex_test session_id_re s \<longleftrightarrow>
     6 \<le> length s \<and> length s \<le> 80
     \<and> set s \<subseteq> set ''ABCDEFGHIJKLMNOPQRSTUVWXYZabcdefghijklmnopqrstuvwxyz0123456789-''"
  unfolding regex_test_def match_rep_iff session_id_bounds list_all_iff
  using session_id_class by blast

text \<open>
  Claim C6. \<open>isValidEventName\<close> holds exactly of the strings of 1 to 64 code units drawn from
  \<^verbatim>\<open>[A-Za-z0-9_:-]\<close>, and \<open>isValidSessionId\<close> exactly of the strings of 6 to 80 code units drawn from
  \<^verbatim>\<open>[A-Za-z0-9-]\<close>. Both are total functions into the truth values: the empty string, a string over
  the length limit, a string with a code unit outside the class and every value that is not a
  string are answered with false.
\<close>

theorem validators_characterised:
  "(isValidEventName v \<longleftrightarrow>
      (\<exists>s. v = JStr s \<and> 1 \<le> length s \<and> length s \<le> 64
         \<and> set s \<subseteq> set ''ABCDEFGHIJKLMNOPQRSTUVWXYZabcdefghijklmnopqrstuvwxyz0123456789_:-''))
   \<and> (isValidSessionId v \<longleftrightarrow>
      (\<exists>s. v = JStr s \<and> 6 \<le> length s \<and> length s \<le> 80
         \<and> set s \<subseteq> set ''ABCDEFGHIJKLMNOPQRSTUVWXYZabcdefghijklmnopqrstuvwxyz0123456789-''))"
  by (cases v; simp add: regex_test_event_name regex_test_session_id)

theorem validators_characterised_witness:
  "isValidEventName (JStr ''build_trace'') \<and> \<not> isValidSessionId (JStr ''build_trace'')"
  using validators_characterised [of "JStr ''build_trace''"] by simp

lemma parseInt_7: "parseInt ''7'' = Finite 7"
  by (simp add: parseInt_def is_space_def is_digit_def digits_value_def)

lemma parseInt_abc: "parseInt ''abc'' = NaN"
  by (simp add: parseInt_def is_space_def is_digit_def digits_value_def)

text \<open>
  Claim C7. \<open>clampDays\<close> maps every finite number to an integer between 1 and 30 (a value below 1
  to 1, a value above 30 to 30, a value in between to its floor) and every non-finite number to 7;
  in particular 0 goes to 1, 31 to 30 and \<^verbatim>\<open>NaN\<close> to 7. In the handler a \<^verbatim>\<open>days\<close> parameter that does
  not parse to a number, and a missing one (which is replaced by the text \<^verbatim>\<open>7\<close> before parsing),
  both give 7 days.
\<close>

theorem clampDays_spec:
  "(1 \<le> clampDays (Finite x) \<and> clampDays (Finite x) \<le> 30)
   \<and> (x < 1 \<longrightarrow> clampDays (Finite x) = 1)
   \<and> (30 < x \<longrightarrow> clampDays (Finite x) = 30)
   \<and> (1 \<le> x \<and> x \<le> 30 \<longrightarrow> clampDays (Finite x) = \<lfloor>x\<rfloor>)
   \<and> clampDays NaN = 7 \<and> clampDays PosInfinity = 7 \<and> clampDays NegInfinity = 7
   \<and> clampDays (Finite 0) = 1 \<and> clampDays (Finite 31) = 30
   \<and> parseInt ''abc'' = NaN
   \<and> (searchParams_get (searchParams req) ''days'' = Some v \<and> parseInt v = NaN
        \<longrightarrow> requested_days req = 7)
   \<and> (searchParams_get (searchParams req) ''days'' = None \<longrightarrow> requested_days req = 7)"
proof -
  have a: "x < 1 \<Longrightarrow> \<lfloor>x\<rfloor> \<le> 0" by linarith
  have b: "30 < x \<Longrightarrow> 30 \<le> \<lfloor>x\<rfloor>" by linarith
  have c: "1 \<le> x \<Longrightarrow> x \<le> 30 \<Longrightarrow> 1 \<le> \<lfloor>x\<rfloor> \<and> \<lfloor>x\<rfloor> \<le> 30" by linarith
  show ?thesis
    using a b c by (auto simp: requested_days_def parseInt_7 parseInt_abc)
qed

theorem clampDays_spec_witness:
  "clampDays (Finite (1/2)) = 1 \<and> clampDays (Finite (61/2)) = 30 \<and> clampDays (Finite (5/2)) = 2
   \<and> requested_days \<lparr>req_method = ''GET'', pathname = ''/api/stats'', searchParams = [(''days'', ''abc'')],
        x_admin_token = None, body_chunks = [], body_end = End\<rparr> = 7
   \<and> requested_days \<lparr>req_method = ''GET'', pathname = ''/api/stats'', searchParams = [],
        x_admin_token = None, body_chunks = [], body_end = End\<rparr> = 7"
  using clampDays_spec [of "1/2"] clampDays_spec [of "61/2"] clampDays_spec [of "5/2"]
    clampDays_spec [of 0 "\<lparr>req_method = ''GET'', pathname = ''/api/stats'', searchParams = [(''days'', ''abc'')],
        x_admin_token = None, body_chunks = [], body_end = End\<rparr>" "''abc''"]
    clampDays_spec [of 0 "\<lparr>req_method = ''GET'', pathname = ''/api/stats'', searchParams = [],
        x_admin_token = None, body_chunks = [], body_end = End\<rparr>"]
  by (simp add: searchParams_get_def)

section \<open>Auxiliary lemmas\<close>

subsection \<open>Dates of the examples\<close>

lemma example_day: "example_now div ms_per_day = 20759"
  by (simp add: example_now_def ms_per_day_def)

lemma civil_20759: "civil_from_days 20759 = (2026, 11, 2)"
  unfolding civil_from_days_def Let_def by simp

lemma civil_20758: "civil_from_days 20758 = (2026, 11, 1)"
  unfolding civil_from_days_def Let_def by simp

lemma civil_20757: "civil_from_days 20757 = (2026, 10, 31)"
  unfolding civil_from_days_def Let_def by simp

lemma iso_dates:
  "iso_date 20759 = ''2026-11-02''"
  "iso_date 20758 = ''2026-11-01''"
  "iso_date 20757 = ''2026-10-31''"
  by (simp_all add: iso_date_def civil_20759 civil_20758 civil_20757 pad2_def pad4_def
        digit_char_def)

lemma example_dates:
  "utcDateOffset example_now 0 = ''2026-11-02''"
  "utcDateOffset example_now 1 = ''2026-11-01''"
  "utcDateOffset example_now 2 = ''2026-10-31''"
  by (simp_all add: utcDateOffset_def example_day iso_dates)

lemma midnight_dates:
  "utcDateOffset (midnight_clock 0) 0 = ''2026-11-02''"
  "utcDateOffset (midnight_clock 1) 1 = ''2026-11-02''"
  "utcDateOffset (midnight_clock 2) 2 = ''2026-11-01''"
  by (simp_all add: utcDateOffset_def midnight_clock_def ms_per_day_def iso_dates)

lemma upt_3: "[0 ..< 3] = [0, 1, 2::nat]"
  by (simp add: upt_rec)

lemma decimal_1: "decimal 1 = ''1''"
  by (simp add: decimal_def dec_nat.simps [of "Suc 0"] digit_char_def)

lemma fcard_single: "fcard {|x|} = 1"
  by (simp add: fcard_finsert_if)

subsection \<open>The body and its properties\<close>

lemma no_bytes_no_chunks:
  "\<forall>c\<in>set cs. c \<noteq> [] \<Longrightarrow> length (concat cs) = 0 \<Longrightarrow> cs = []"
  by (cases cs) auto

lemma get_prop_defined_elsewhere:
  "get_prop b k = Inr v \<Longrightarrow> v \<noteq> JUndefined \<Longrightarrow> \<exists>v'. get_prop b k' = Inr v'"
  by (cases b) simp_all

subsection \<open>The loop of \<open>buildStats\<close>\<close>

lemma buildStats_loop_ok:
  "(\<And>j. i \<le> j \<Longrightarrow> int j < days \<Longrightarrow> fault j = None) \<Longrightarrow>
   buildStats_loop clk fault db days i result
     = Inr (result @ map (day_entry clk db) [i ..< nat days])"
proof (induction clk fault db days i result rule: buildStats_loop.induct)
  case (1 clk fault db days i result)
  show ?case
  proof (cases "int i < days")
    case True
    then have f: "fault i = None" using "1.prems" by simp
    have u: "[i ..< nat days] = i # [Suc i ..< nat days]"
      using True by (simp add: upt_conv_Cons)
    have "buildStats_loop clk fault db days (i + 1)
            (result @ [\<lparr>date = utcDateOffset (clk i) (int i),
                         events = hgetall db (event_key (utcDateOffset (clk i) (int i))),
                         uniqueSessions = scard db (session_key (utcDateOffset (clk i) (int i)))\<rparr>])
          = Inr ((result @ [\<lparr>date = utcDateOffset (clk i) (int i),
                         events = hgetall db (event_key (utcDateOffset (clk i) (int i))),
                         uniqueSessions = scard db (session_key (utcDateOffset (clk i) (int i)))\<rparr>])
                 @ map (day_entry clk db) [i + 1 ..< nat days])"
      using True f "1.prems" by (intro "1.IH") auto
    then show ?thesis
      using True f u by (simp add: day_entry_def Let_def)
  next
    case False
    then show ?thesis by simp
  qed
qed

lemma buildStats_loop_fault:
  "i \<le> j \<Longrightarrow> int j < days \<Longrightarrow> fault j = Some err
   \<Longrightarrow> (\<And>k. i \<le> k \<Longrightarrow> k < j \<Longrightarrow> fault k = None)
   \<Longrightarrow> buildStats_loop clk fault db days i result = Inl err"
proof (induction clk fault db days i result rule: buildStats_loop.induct)
  case (1 clk fault db days i result)
  have lt: "int i < days" using "1.prems"(1,2) by linarith
  show ?case
  proof (cases "i = j")
    case True
    then show ?thesis using lt "1.prems"(3) by (simp add: Let_def)
  next
    case False
    then have ij: "i < j" using "1.prems"(1) by simp
    then have f: "fault i = None" using "1.prems"(4) by simp
    have "buildStats_loop clk fault db days (i + 1)
            (result @ [\<lparr>date = utcDateOffset (clk i) (int i),
                         events = hgetall db (event_key (utcDateOffset (clk i) (int i))),
                         uniqueSessions = scard db (session_key (utcDateOffset (clk i) (int i)))\<rparr>])
          = Inl err"
      using lt f ij "1.prems" by (intro "1.IH") auto
    then show ?thesis using lt f by (simp add: Let_def)
  qed
qed

lemma first_fault:
  fixes fault :: "nat \<Rightarrow> thrown option"
  assumes "fault i \<noteq> None"
  shows "\<exists>j err. j \<le> i \<and> fault j = Some err \<and> (\<forall>k<j. fault k = None)"
proof -
  define j where "j = (LEAST k. fault k \<noteq> None)"
  have a: "fault j \<noteq> None" unfolding j_def using assms by (rule LeastI)
  have b: "j \<le> i" unfolding j_def using assms by (rule Least_le)
  have c: "\<forall>k<j. fault k = None" unfolding j_def using not_less_Least by blast
  from a b c show ?thesis by auto
qed

lemma buildStats_ok:
  "(\<And>j. int j < days \<Longrightarrow> fault j = None) \<Longrightarrow>
   buildStats clk fault db days = Inr (map (day_entry clk db) [0 ..< nat days])"
  unfolding buildStats_def using buildStats_loop_ok [of 0 days fault clk db "[]"] by simp

lemma buildStats_fault:
  "int j < days \<Longrightarrow> fault j = Some err \<Longrightarrow> (\<And>k. k < j \<Longrightarrow> fault k = None)
   \<Longrightarrow> buildStats clk fault db days = Inl err"
  unfolding buildStats_def using buildStats_loop_fault [of 0 j days fault err clk db "[]"] by simp

subsection \<open>What a committed transaction does to the store\<close>

lemma field_count_hash_incr:
  "field_count (hash_incr h f n) g = (if g = f then field_count h f + n else field_count h g)"
  by (induction h f n rule: hash_incr.induct) (auto simp: field_count_def)

lemma named_sum_hash_incr:
  "named_sum (hash_incr h f n) = (if f = ''_total'' then named_sum h else named_sum h + n)"
  by (induction h f n rule: hash_incr.induct) (auto simp: named_sum_def)

lemma hash_incr_not_empty: "hash_incr h f n \<noteq> []"
  by (induction h f n rule: hash_incr.induct) auto

lemma hashes_store_tx:
  "hashes (exec db (store_tx d name sid)) key
     = (if key = event_key d then hash_incr (hash_incr (hashes db key) name 1) ''_total'' 1
        else hashes db key)"
  by (auto simp: exec_def store_tx_def hash_incr_not_empty split: js_value.splits)

lemma sets_store_tx:
  "sets (exec db (store_tx d name sid)) key
     = (case sid of
          JStr x \<Rightarrow> if key = session_key d \<and> isValidSessionId sid then finsert x (sets db key)
                    else sets db key
        | _ \<Rightarrow> sets db key)"
  by (auto simp: exec_def store_tx_def hash_incr_not_empty split: js_value.splits)

lemma storeEvent_committed:
  "redis s = Some db \<Longrightarrow> connected (redisState s) \<Longrightarrow>
   storeEvent now Committed name sid s
     = (True, s\<lparr>redis := Some (exec db (store_tx (utcDateOffset now 0) name sid))\<rparr>)"
  by (simp add: storeEvent_def)

lemma storeEvent_consistent:
  assumes "name \<noteq> ''_total''" and "counters_consistent s"
  shows "counters_consistent (snd (storeEvent now oc name sid s))"
  using assms
  by (auto simp: counters_consistent_def storeEvent_def Let_def record_error_def hashes_store_tx
        total_count_def field_count_hash_incr named_sum_hash_incr
      split: option.splits tx_outcome.splits)

lemma ingest_all_consistent:
  assumes "\<forall>c\<in>set calls. fst (snd (snd c)) \<noteq> ''_total''" and "counters_consistent s"
  shows "counters_consistent (ingest_all calls s)"
  using assms
  by (induction calls s rule: ingest_all.induct) (auto simp: storeEvent_consistent)

lemma live_server_consistent: "counters_consistent live_server"
  by (simp add: counters_consistent_def live_server_def empty_db_def total_count_def
        field_count_def named_sum_def)

lemma replay_counts:
  assumes "name \<noteq> ''_total''" and "redis s = Some db" and "connected (redisState s)"
    and "utcDateOffset now 0 = d" and "utcDateOffset now' 0 = d"
    and "redis (ingest_all [(now, Committed, name, sid), (now', Committed, name, sid)] s) = Some db'"
  shows "field_count (hashes db' (event_key d)) name = field_count (hashes db (event_key d)) name + 2
    \<and> scard db (session_key d) \<le> scard db' (session_key d)
    \<and> scard db' (session_key d) \<le> scard db (session_key d) + 1"
proof -
  let ?db1 = "exec db (store_tx d name sid)"
  have 1: "storeEvent now Committed name sid s = (True, s\<lparr>redis := Some ?db1\<rparr>)"
    using assms(2,3,4) by (simp add: storeEvent_committed)
  have 2: "storeEvent now' Committed name sid (s\<lparr>redis := Some ?db1\<rparr>)
             = (True, s\<lparr>redis := Some (exec ?db1 (store_tx d name sid))\<rparr>)"
    using assms(3,5) by (simp add: storeEvent_committed)
  have db': "db' = exec ?db1 (store_tx d name sid)"
    using assms(6) by (simp add: 1 2)
  have a: "field_count (hashes db' (event_key d)) name
             = field_count (hashes db (event_key d)) name + 2"
    using assms(1) by (simp add: db' hgetall_def hashes_store_tx field_count_hash_incr)
  have b: "sets db' (session_key d) = sets db (session_key d)
           \<or> (\<exists>x. sets db' (session_key d) = finsert x (sets db (session_key d)))"
    by (cases sid) (auto simp: db' sets_store_tx)
  have c: "scard db (session_key d) \<le> scard db' (session_key d)
           \<and> scard db' (session_key d) \<le> scard db (session_key d) + 1"
    using b by (auto simp: scard_def fcard_finsert_if)
  from a c show ?thesis by simp
qed

lemma total_is_valid_name: "regex_test event_name_re ''_total''"
  by (simp add: regex_test_event_name)

lemma abc_is_valid_session: "regex_test session_id_re ''abc-123''"
  by (simp add: regex_test_session_id)

lemma total_once:
  "hashes (exec empty_db (store_tx ''2026-11-02'' ''_total'' sid)) ''keccak:events:2026-11-02''
     = [(''_total'', 2)]"
  by (simp add: hashes_store_tx event_key_def empty_db_def)

subsection \<open>The example requests\<close>

lemma parseInt_1: "parseInt ''1'' = Finite 1"
  by (simp add: parseInt_def is_space_def is_digit_def digits_value_def)

lemma parseInt_3: "parseInt ''3'' = Finite 3"
  by (simp add: parseInt_def is_space_def is_digit_def digits_value_def)

lemma example_days:
  "requested_days empty_header_request = 1" "requested_days admin_request = 3"
  by (simp_all add: requested_days_def empty_header_request_def admin_request_def
        searchParams_get_def parseInt_1 parseInt_3)

lemma example_tokens:
  "suppliedToken empty_header_request = Some ''s3cret''"
  "suppliedToken both_tokens_request = Some ''guess''"
  "suppliedToken admin_request = Some ''s3cret''"
  by (simp_all add: suppliedToken_def empty_header_request_def both_tokens_request_def
        admin_request_def searchParams_get_def)

lemma empty_day: "day_entry (\<lambda>k. example_now) empty_db 0
                    = \<lparr>date = ''2026-11-02'', events = JObj [], uniqueSessions = 0\<rparr>"
  by (simp add: day_entry_def example_dates hgetall_def scard_def empty_db_def)

lemma traced_hashes:
  "hashes traced_db k
     = (if k = ''keccak:events:2026-11-02'' then [(''build_trace'', 1), (''_total'', 1)] else [])"
  by (simp add: traced_db_def hashes_store_tx event_key_def empty_db_def)

lemma traced_sets:
  "sets traced_db k = (if k = ''keccak:sessions:2026-11-02'' then {|''abc-123''|} else {||})"
  using abc_is_valid_session
  by (simp add: traced_db_def sets_store_tx session_key_def empty_db_def)

lemma traced_day:
  "day_entry (\<lambda>k. example_now) traced_db 0
     = \<lparr>date = ''2026-11-02'',
        events = JObj [(''build_trace'', JStr ''1''), (''_total'', JStr ''1'')],
        uniqueSessions = 1\<rparr>"
  by (simp add: day_entry_def example_dates hgetall_def scard_def traced_hashes traced_sets
        event_key_def session_key_def decimal_1 fcard_single)

lemma midnight_days:
  "day_entry midnight_clock empty_db 0 = \<lparr>date = ''2026-11-02'', events = JObj [], uniqueSessions = 0\<rparr>"
  "day_entry midnight_clock empty_db 1 = \<lparr>date = ''2026-11-02'', events = JObj [], uniqueSessions = 0\<rparr>"
  "day_entry midnight_clock empty_db 2 = \<lparr>date = ''2026-11-01'', events = JObj [], uniqueSessions = 0\<rparr>"
  using midnight_dates
  by (simp_all add: day_entry_def hgetall_def scard_def empty_db_def)

lemma total_post_handled:
  "handle total_env total_post live_server
     = (Replied (json 202 (EventAccepted True True)),
        live_server\<lparr>redis := Some (exec empty_db
           (store_tx ''2026-11-02'' ''_total'' (JStr ''abc-123'')))\<rparr>)"
proof -
  have r: "readJsonBody (json_parse total_env) total_post 65536
             = Inr (JObj [(''event'', JStr ''_total''), (''sessionId'', JStr ''abc-123'')])"
    by (simp add: readJsonBody_def total_post_def total_env_def total_body_def)
  have s: "storeEvent (clock total_env 0) (tx_result total_env) ''_total'' (JStr ''abc-123'') live_server
     = (True, live_server\<lparr>redis := Some (exec empty_db
           (store_tx ''2026-11-02'' ''_total'' (JStr ''abc-123'')))\<rparr>)"
    by (simp add: storeEvent_committed live_server_def example_dates total_env_def)
  have e: "enabled (redisState live_server)"
    by (simp add: live_server_def)
  have h: "handle total_env total_post live_server = post_events total_env total_post live_server"
    by (simp add: handle_def total_post_def)
  show ?thesis
    using total_is_valid_name e by (simp add: h post_events_def r s)
qed

section \<open>The total counter\<close>

text \<open>
  Claim C1. After any sequence of accepted ingestions the count under \<^verbatim>\<open>_total\<close> of a day's Event
  Counter Map equals the sum of the counts of all other fields. Every ingestion whose event name is
  not \<^verbatim>\<open>_total\<close> keeps this (\<open>ingest_all_consistent\<close>, used below for two ordinary events, one
  of them with a lost reply). The validator, however, accepts the text
  \<^verbatim>\<open>_total\<close> as an event name, and \<open>storeEvent\<close> then increments the total field twice: a
  \<^verbatim>\<open>POST /api/events\<close> with that event name is answered 202 with \<^verbatim>\<open>stored: true\<close>, and on the
  empty store it leaves \<^verbatim>\<open>_total\<close> at 2 while the other fields sum to 0.
\<close>

theorem total_key_accepted_as_event_name:
  "isValidEventName (JStr ''_total'')
   \<and> fst (handle total_env total_post live_server) = Replied (json 202 (EventAccepted True True))
   \<and> map_option (\<lambda>db. hashes db ''keccak:events:2026-11-02'')
        (redis (snd (handle total_env total_post live_server)))
       = Some [(''_total'', 2)]
   \<and> total_count [(''_total'', 2)] = 2 \<and> named_sum [(''_total'', 2)] = 0
   \<and> counters_consistent live_server
   \<and> counters_consistent
        (ingest_all [(example_now, Committed, ''build_trace'', JStr ''abc-123''),
                     (example_now, ReplyLost (ErrorObject ''read ECONNRESET''), ''page:view'', JUndefined)]
           live_server)
   \<and> \<not> counters_consistent (snd (handle total_env total_post live_server))"
proof -
  let ?db = "exec empty_db (store_tx ''2026-11-02'' ''_total'' (JStr ''abc-123''))"
  have t: "total_count [(''_total'', 2)] = 2" "named_sum [(''_total'', 2)] = 0"
    by (simp_all add: total_count_def field_count_def named_sum_def)
  have n: "\<not> counters_consistent (live_server\<lparr>redis := Some ?db\<rparr>)"
  proof
    assume "counters_consistent (live_server\<lparr>redis := Some ?db\<rparr>)"
    then have "total_count (hashes ?db ''keccak:events:2026-11-02'')
               = named_sum (hashes ?db ''keccak:events:2026-11-02'')"
      by (simp add: counters_consistent_def)
    then show False by (simp add: total_once t)
  qed
  have k: "counters_consistent
        (ingest_all [(example_now, Committed, ''build_trace'', JStr ''abc-123''),
                     (example_now, ReplyLost (ErrorObject ''read ECONNRESET''), ''page:view'', JUndefined)]
           live_server)"
    by (rule ingest_all_consistent) (simp_all add: live_server_consistent)
  show ?thesis
    using total_is_valid_name n live_server_consistent k
    by (simp add: total_post_handled total_once hgetall_def t)
qed

section \<open>Ingestion never fails the caller\<close>

text \<open>
  Claim C2. With the store unavailable (no client, or not connected) \<open>storeEvent\<close> returns false and
  changes nothing. When the transaction throws, the message is recorded as the last error of the
  health state and \<open>storeEvent\<close> returns false. It returns true exactly when the client exists, is
  connected and the transaction was committed. Whenever the body was read and holds a valid event
  name, the handler answers 202 with \<^verbatim>\<open>{ok: true, stored, redisEnabled}\<close>, where \<open>stored\<close> is the
  result of \<open>storeEvent\<close>.
\<close>

theorem ingestion_never_fails:
  "((redis s = None \<or> \<not> connected (redisState s)) \<longrightarrow>
       storeEvent now oc name sessionId s = (False, s))
   \<and> (redis s \<noteq> None \<and> connected (redisState s) \<and> (oc = Aborted err \<or> oc = ReplyLost err) \<longrightarrow>
       fst (storeEvent now oc name sessionId s) = False
       \<and> lastError (redisState (snd (storeEvent now oc name sessionId s))) = Some (error_text err))
   \<and> (fst (storeEvent now oc name sessionId s)
        \<longleftrightarrow> redis s \<noteq> None \<and> connected (redisState s) \<and> oc = Committed)
   \<and> (readJsonBody (json_parse e) req (64 * 1024) = Inr b \<and> get_prop b ''event'' = Inr (JStr name)
        \<and> isValidEventName (JStr name) \<longrightarrow>
       (\<exists>sid. get_prop b ''sessionId'' = Inr sid
          \<and> post_events e req s
              = (Replied (json 202 (EventAccepted
                    (fst (storeEvent (clock e 0) (tx_result e) name sid s))
                    (enabled (redisState s)))),
                 snd (storeEvent (clock e 0) (tx_result e) name sid s))))"
proof (intro conjI impI)
  assume "redis s = None \<or> \<not> connected (redisState s)"
  then show "storeEvent now oc name sessionId s = (False, s)"
    by (auto simp: storeEvent_def split: option.splits)
next
  assume h: "redis s \<noteq> None \<and> connected (redisState s) \<and> (oc = Aborted err \<or> oc = ReplyLost err)"
  then show "fst (storeEvent now oc name sessionId s) = False"
    by (auto simp: storeEvent_def Let_def split: option.splits)
  from h show "lastError (redisState (snd (storeEvent now oc name sessionId s))) = Some (error_text err)"
    by (auto simp: storeEvent_def Let_def record_error_def split: option.splits)
next
  show "fst (storeEvent now oc name sessionId s)
        \<longleftrightarrow> redis s \<noteq> None \<and> connected (redisState s) \<and> oc = Committed"
    by (auto simp: storeEvent_def Let_def split: option.splits tx_outcome.splits)
next
  assume h: "readJsonBody (json_parse e) req (64 * 1024) = Inr b
        \<and> get_prop b ''event'' = Inr (JStr name) \<and> isValidEventName (JStr name)"
  then obtain sid where sid: "get_prop b ''sessionId'' = Inr sid"
    using get_prop_defined_elsewhere [of b "''event''" "JStr name" "''sessionId''"] by auto
  have en: "enabled (redisState (snd (storeEvent (clock e 0) (tx_result e) name sid s)))
              = enabled (redisState s)"
    by (auto simp: storeEvent_def Let_def record_error_def split: option.splits tx_outcome.splits)
  have "post_events e req s
              = (Replied (json 202 (EventAccepted
                    (fst (storeEvent (clock e 0) (tx_result e) name sid s))
                    (enabled (redisState s)))),
                 snd (storeEvent (clock e 0) (tx_result e) name sid s))"
    using h sid en
    by (cases "storeEvent (clock e 0) (tx_result e) name sid s") (simp add: post_events_def)
  with sid show "\<exists>sid. get_prop b ''sessionId'' = Inr sid
          \<and> post_events e req s
              = (Replied (json 202 (EventAccepted
                    (fst (storeEvent (clock e 0) (tx_result e) name sid s))
                    (enabled (redisState s)))),
                 snd (storeEvent (clock e 0) (tx_result e) name sid s))"
    by blast
qed

theorem ingestion_never_fails_witness:
  "storeEvent example_now Committed ''build_trace'' JUndefined offline_server = (False, offline_server)
   \<and> fst (storeEvent example_now (Aborted (ErrorObject ''Connection is closed.'')) ''build_trace''
          JUndefined live_server) = False
   \<and> lastError (redisState (snd (storeEvent example_now (Aborted (ErrorObject ''Connection is closed.''))
          ''build_trace'' JUndefined live_server))) = Some ''Connection is closed.''
   \<and> fst (handle (trace_env (Aborted (ErrorObject ''Connection is closed.''))) trace_post broken_server)
       = Replied (json 202 (EventAccepted False True))"
proof -
  let ?oc = "Aborted (ErrorObject ''Connection is closed.'')"
  have a: "redis offline_server = None" by (simp add: offline_server_def)
  have b: "redis live_server \<noteq> None \<and> connected (redisState live_server)
             \<and> (?oc = Aborted (ErrorObject ''Connection is closed.'')
                 \<or> ?oc = ReplyLost (ErrorObject ''Connection is closed.''))"
    by (simp add: live_server_def)
  have v: "isValidEventName (JStr ''build_trace'')"
    by (simp add: regex_test_event_name)
  have c: "readJsonBody (json_parse (trace_env ?oc)) trace_post (64 * 1024)
             = Inr (JObj [(''event'', JStr ''build_trace'')])
           \<and> get_prop (JObj [(''event'', JStr ''build_trace'')]) ''event'' = Inr (JStr ''build_trace'')"
    by (simp add: readJsonBody_def trace_post_def trace_env_def trace_body_def)
  have d: "get_prop (JObj [(''event'', JStr ''build_trace'')]) ''sessionId'' = Inr JUndefined"
    by simp
  have f: "\<not> connected (redisState broken_server)" "enabled (redisState broken_server)"
    by (simp_all add: broken_server_def)
  have g: "handle (trace_env ?oc) trace_post broken_server
             = post_events (trace_env ?oc) trace_post broken_server"
    by (simp add: handle_def trace_post_def)
  show ?thesis
    using ingestion_never_fails [of offline_server example_now Committed "''build_trace''" JUndefined
        "ErrorObject ''x''" "trace_env ?oc" trace_post "JObj []"]
      ingestion_never_fails [of live_server example_now ?oc "''build_trace''" JUndefined
        "ErrorObject ''Connection is closed.''" "trace_env ?oc" trace_post "JObj []"]
      ingestion_never_fails [of broken_server "clock (trace_env ?oc) 0" "tx_result (trace_env ?oc)"
        "''build_trace''" JUndefined
        "ErrorObject ''Connection is closed.''" "trace_env ?oc" trace_post
        "JObj [(''event'', JStr ''build_trace'')]"]
      a b c d f g v
    by simp
qed

section \<open>The admin gate\<close>

text \<open>
  Claim C3, as stated, lets the header take precedence whenever a token arrives both in the header
  \<^verbatim>\<open>x-admin-token\<close> and in the query parameter \<^verbatim>\<open>token\<close>. A request whose header is present but
  empty and whose query parameter is the configured token is authorized by the code and receives
  the statistics: the supplied token is the query parameter, not the header.
\<close>

theorem header_precedence_counterexample:
  "x_admin_token empty_header_request = Some []
   \<and> searchParams_get (searchParams empty_header_request) ''token'' = Some ''s3cret''
   \<and> suppliedToken empty_header_request \<noteq> x_admin_token empty_header_request
   \<and> x_admin_token empty_header_request \<noteq> Some (adminToken live_server)
   \<and> get_stats quiet_env empty_header_request live_server
       = (Replied (json 200 (Stats 1 [\<lparr>date = ''2026-11-02'', events = JObj [], uniqueSessions = 0\<rparr>])),
          live_server)"
proof -
  have b: "buildStats (\<lambda>k. example_now) (\<lambda>i. None) empty_db 1
             = Inr [\<lparr>date = ''2026-11-02'', events = JObj [], uniqueSessions = 0\<rparr>]"
    by (simp add: buildStats_ok empty_day)
  have g: "get_stats quiet_env empty_header_request live_server
       = (Replied (json 200 (Stats 1 [\<lparr>date = ''2026-11-02'', events = JObj [], uniqueSessions = 0\<rparr>])),
          live_server)"
    by (simp add: get_stats_def example_tokens example_days live_server_def quiet_env_def b)
  show ?thesis
    using g by (simp add: example_tokens) (simp add: empty_header_request_def searchParams_get_def live_server_def)
qed

text \<open>
  Claim C3, amended. Without a configured admin token every statistics request is answered 403
  \<^verbatim>\<open>admin_token_not_configured\<close>, whatever token it supplies. With a configured token the request is
  authorized (answered 200, 500 or 503) exactly when the supplied token equals the configured one;
  every mismatch, an absent token included, is answered 401 \<^verbatim>\<open>unauthorized\<close>. The header takes
  precedence over the query parameter whenever its value is not empty; an empty header value
  counts as absent and the query parameter is the supplied token.
\<close>

theorem stats_authorization:
  "(adminToken s = [] \<longrightarrow>
      get_stats e req s = (Replied (json 403 (ErrorBody ''admin_token_not_configured'')), s))
   \<and> (adminToken s \<noteq> [] \<and> suppliedToken req \<noteq> Some (adminToken s) \<longrightarrow>
      get_stats e req s = (Replied (json 401 (ErrorBody ''unauthorized'')), s))
   \<and> (adminToken s \<noteq> [] \<and> suppliedToken req = Some (adminToken s) \<longrightarrow>
      (\<exists>p. get_stats e req s = (Replied (json 200 p), s)
         \<or> get_stats e req s = (Replied (json 500 p), s)
         \<or> get_stats e req s = (Replied (json 503 p), s)))
   \<and> (adminToken s \<noteq> [] \<and> x_admin_token req = None
        \<and> searchParams_get (searchParams req) ''token'' = None \<longrightarrow>
      get_stats e req s = (Replied (json 401 (ErrorBody ''unauthorized'')), s))
   \<and> (x_admin_token req = Some h \<and> h \<noteq> [] \<longrightarrow> suppliedToken req = Some h)
   \<and> (x_admin_token req = Some [] \<longrightarrow>
      suppliedToken req = searchParams_get (searchParams req) ''token'')"
  by (auto simp: get_stats_def suppliedToken_def Let_def split: option.splits sum.splits)

theorem stats_authorization_witness:
  "get_stats quiet_env both_tokens_request live_server
     = (Replied (json 401 (ErrorBody ''unauthorized'')), live_server)
   \<and> suppliedToken both_tokens_request = Some ''guess''
   \<and> get_stats quiet_env both_tokens_request (live_server\<lparr>adminToken := []\<rparr>)
     = (Replied (json 403 (ErrorBody ''admin_token_not_configured'')),
        live_server\<lparr>adminToken := []\<rparr>)"
proof -
  have a: "adminToken live_server \<noteq> []
           \<and> suppliedToken both_tokens_request \<noteq> Some (adminToken live_server)"
    by (simp add: live_server_def example_tokens)
  have b: "x_admin_token both_tokens_request = Some ''guess'' \<and> ''guess'' \<noteq> []"
    by (simp add: both_tokens_request_def)
  have c: "adminToken (live_server\<lparr>adminToken := []\<rparr>) = []"
    by simp
  show ?thesis
    using stats_authorization [of live_server quiet_env both_tokens_request "''guess''"]
      stats_authorization [of "live_server\<lparr>adminToken := []\<rparr>" quiet_env both_tokens_request
        "''guess''"]
      a b c
    by simp
qed

section \<open>Statistics\<close>

text \<open>
  Claim C4, as stated, gives every entry an event map from strings to integers and dates the
  entries today, yesterday and so on. Neither holds of the code in general. \<open>buildStats\<close> stores
  the reply of \<^verbatim>\<open>hgetall\<close> as it came, and that reply carries each count as text: after one ingestion
  of \<^verbatim>\<open>build_trace\<close> the entry of the day maps \<^verbatim>\<open>build_trace\<close> and \<^verbatim>\<open>_total\<close> to the string \<^verbatim>\<open>1\<close>. And
  the clock is read anew at every iteration: when midnight passes between the first and the second
  iteration, the first two entries carry the same date.
\<close>

theorem buildStats_claim_counterexample:
  "redis (snd (storeEvent example_now Committed ''build_trace'' (JStr ''abc-123'') live_server))
     = Some traced_db
   \<and> buildStats (\<lambda>k. example_now) (\<lambda>i. None) traced_db 1
     = Inr [\<lparr>date = ''2026-11-02'',
             events = JObj [(''build_trace'', JStr ''1''), (''_total'', JStr ''1'')],
             uniqueSessions = 1\<rparr>]
   \<and> \<not> int_counts (JObj [(''build_trace'', JStr ''1''), (''_total'', JStr ''1'')])
   \<and> buildStats midnight_clock (\<lambda>i. None) empty_db 3
     = Inr [\<lparr>date = ''2026-11-02'', events = JObj [], uniqueSessions = 0\<rparr>,
            \<lparr>date = ''2026-11-02'', events = JObj [], uniqueSessions = 0\<rparr>,
            \<lparr>date = ''2026-11-01'', events = JObj [], uniqueSessions = 0\<rparr>]"
proof -
  have a: "redis (snd (storeEvent example_now Committed ''build_trace'' (JStr ''abc-123'') live_server))
             = Some traced_db"
    by (simp add: storeEvent_committed live_server_def example_dates traced_db_def)
  have b: "buildStats (\<lambda>k. example_now) (\<lambda>i. None) traced_db 1
     = Inr [\<lparr>date = ''2026-11-02'',
             events = JObj [(''build_trace'', JStr ''1''), (''_total'', JStr ''1'')],
             uniqueSessions = 1\<rparr>]"
    by (simp add: buildStats_ok traced_day)
  have c: "\<not> int_counts (JObj [(''build_trace'', JStr ''1''), (''_total'', JStr ''1'')])"
    by simp
  have d: "buildStats midnight_clock (\<lambda>i. None) empty_db 3
     = Inr [\<lparr>date = ''2026-11-02'', events = JObj [], uniqueSessions = 0\<rparr>,
            \<lparr>date = ''2026-11-02'', events = JObj [], uniqueSessions = 0\<rparr>,
            \<lparr>date = ''2026-11-01'', events = JObj [], uniqueSessions = 0\<rparr>]"
    by (simp add: buildStats_ok upt_3 midnight_days midnight_days(2) [unfolded One_nat_def])
  from a b c d show ?thesis by simp
qed

text \<open>
  Claim C4, amended. When no read fails and every clock reading of the call falls on one UTC day,
  \<open>buildStats\<close> returns one entry per offset \<open>0, \<dots>, N - 1\<close> in ascending order, exactly \<open>N\<close> of them
  (for every \<open>N\<close>, in particular for the clamped values 1 to 30). Entry \<open>i\<close> carries the UTC date
  \<open>i\<close> days before that day (today first, then yesterday, and so on), the event map of that date
  with each count as its decimal text, and the cardinality of that date's Session Set as a number;
  a day without recorded activity is not skipped and reports the empty map and 0 sessions.
\<close>

theorem buildStats_entries:
  assumes "\<forall>i. int i < N \<longrightarrow> fault i = None"
    and "\<forall>i. int i < N \<longrightarrow> clk i div ms_per_day = today"
  shows "\<exists>r. buildStats clk fault db N = Inr r \<and> length r = nat N
    \<and> (\<forall>i<nat N.
          date (r ! i) = iso_date (today - int i)
          \<and> events (r ! i)
              = JObj (map (\<lambda>(f, n). (f, JStr (decimal n))) (hashes db (event_key (date (r ! i)))))
          \<and> uniqueSessions (r ! i) = fcard (sets db (session_key (date (r ! i))))
          \<and> (hashes db (event_key (date (r ! i))) = [] \<longrightarrow> events (r ! i) = JObj [])
          \<and> (sets db (session_key (date (r ! i))) = {||} \<longrightarrow> uniqueSessions (r ! i) = 0))"
proof -
  let ?r = "map (day_entry clk db) [0 ..< nat N]"
  have b: "buildStats clk fault db N = Inr ?r"
    using assms(1) by (simp add: buildStats_ok)
  have d: "utcDateOffset (clk i) (int i) = iso_date (today - int i)" if "i < nat N" for i
  proof -
    from that have "int i < N" by linarith
    with assms(2) have "clk i div ms_per_day = today" by blast
    then show ?thesis by (simp add: utcDateOffset_def)
  qed
  have e: "date (?r ! i) = iso_date (today - int i)
          \<and> events (?r ! i)
              = JObj (map (\<lambda>(f, n). (f, JStr (decimal n))) (hashes db (event_key (date (?r ! i)))))
          \<and> uniqueSessions (?r ! i) = fcard (sets db (session_key (date (?r ! i))))
          \<and> (hashes db (event_key (date (?r ! i))) = [] \<longrightarrow> events (?r ! i) = JObj [])
          \<and> (sets db (session_key (date (?r ! i))) = {||} \<longrightarrow> uniqueSessions (?r ! i) = 0)"
    if "i < nat N" for i
    using that d [OF that] by (simp add: day_entry_def hgetall_def scard_def)
  have l: "length ?r = nat N" by simp
  from b l e show ?thesis by blast
qed

theorem buildStats_entries_witness:
  "buildStats (clock quiet_env) (read_fault quiet_env) traced_db 3
     = Inr [\<lparr>date = ''2026-11-02'',
             events = JObj [(''build_trace'', JStr ''1''), (''_total'', JStr ''1'')],
             uniqueSessions = 1\<rparr>,
            \<lparr>date = ''2026-11-01'', events = JObj [], uniqueSessions = 0\<rparr>,
            \<lparr>date = ''2026-10-31'', events = JObj [], uniqueSessions = 0\<rparr>]"
proof -
  have nf: "\<forall>i. int i < 3 \<longrightarrow> read_fault quiet_env i = None"
    by (simp add: quiet_env_def)
  have sd: "\<forall>i. int i < 3 \<longrightarrow> clock quiet_env i div ms_per_day = 20759"
    by (simp add: quiet_env_def example_day)
  obtain r where r: "buildStats (clock quiet_env) (read_fault quiet_env) traced_db 3 = Inr r"
    and len: "length r = 3"
    and ent: "\<forall>i<3. date (r ! i) = iso_date (20759 - int i)
          \<and> events (r ! i)
              = JObj (map (\<lambda>(f, n). (f, JStr (decimal n)))
                   (hashes traced_db (event_key (date (r ! i)))))
          \<and> uniqueSessions (r ! i) = fcard (sets traced_db (session_key (date (r ! i))))"
    using buildStats_entries [OF nf sd, of traced_db] by auto
  from ent have d: "date (r ! 0) = ''2026-11-02''" "date (r ! 1) = ''2026-11-01''"
    "date (r ! 2) = ''2026-10-31''"
    by (simp_all add: iso_dates)
  have e0: "r ! 0 = \<lparr>date = ''2026-11-02'',
             events = JObj [(''build_trace'', JStr ''1''), (''_total'', JStr ''1'')],
             uniqueSessions = 1\<rparr>"
    using ent d(1)
    by (intro day_stats.equality)
      (simp_all add: traced_hashes traced_sets event_key_def session_key_def decimal_1 fcard_single)
  have e1: "r ! 1 = \<lparr>date = ''2026-11-01'', events = JObj [], uniqueSessions = 0\<rparr>"
    using ent d(2)
    by (intro day_stats.equality)
      (simp_all add: traced_hashes traced_sets event_key_def session_key_def)
  have e2: "r ! 2 = \<lparr>date = ''2026-10-31'', events = JObj [], uniqueSessions = 0\<rparr>"
    using ent d(3)
    by (intro day_stats.equality)
      (simp_all add: traced_hashes traced_sets event_key_def session_key_def)
  have "r = [r ! 0, r ! 1, r ! 2]"
    using len by (auto simp: list_eq_iff_nth_eq less_Suc_eq numeral_3_eq_3 numeral_2_eq_2 nth_Cons')
  with r e0 e1 e2 show ?thesis by simp
qed

text \<open>
  Claim C5. For an authorized statistics request: when the client is absent or not connected the
  answer is 503 \<^verbatim>\<open>redis_unavailable\<close> with the last recorded error, whatever the store holds and
  whatever its reads would do (no day is read); when the read of some requested day fails, the
  answer is 500 \<^verbatim>\<open>stats_query_failed\<close> with the message of the first failing read as detail, and no
  sequence of per-day results is part of the answer.
\<close>

theorem stats_failure_modes:
  assumes "adminToken s \<noteq> []" and "suppliedToken req = Some (adminToken s)"
  shows "((redis s = None \<or> \<not> connected (redisState s)) \<longrightarrow>
            get_stats e req s
              = (Replied (json 503 (RedisUnavailable (lastError (redisState s)))), s))
    \<and> (redis s \<noteq> None \<and> connected (redisState s) \<and> int j < requested_days req
         \<and> read_fault e j = Some err \<and> (\<forall>k<j. read_fault e k = None) \<longrightarrow>
            get_stats e req s = (Replied (json 500 (StatsQueryFailed (error_text err))), s))
    \<and> (redis s \<noteq> None \<and> connected (redisState s) \<and> int i < requested_days req
         \<and> read_fault e i \<noteq> None \<longrightarrow>
            (\<exists>detail. get_stats e req s = (Replied (json 500 (StatsQueryFailed detail)), s)))"
proof (intro conjI impI)
  assume "redis s = None \<or> \<not> connected (redisState s)"
  then show "get_stats e req s = (Replied (json 503 (RedisUnavailable (lastError (redisState s)))), s)"
    using assms by (auto simp: get_stats_def split: option.splits)
next
  assume h: "redis s \<noteq> None \<and> connected (redisState s) \<and> int j < requested_days req
         \<and> read_fault e j = Some err \<and> (\<forall>k<j. read_fault e k = None)"
  then obtain db where db: "redis s = Some db" by auto
  have "buildStats (clock e) (read_fault e) db (requested_days req) = Inl err"
    using h by (intro buildStats_fault [of j]) auto
  then show "get_stats e req s = (Replied (json 500 (StatsQueryFailed (error_text err))), s)"
    using assms h db by (simp add: get_stats_def)
next
  assume h: "redis s \<noteq> None \<and> connected (redisState s) \<and> int i < requested_days req
         \<and> read_fault e i \<noteq> None"
  then obtain db where db: "redis s = Some db" by auto
  obtain j err where j: "j \<le> i" "read_fault e j = Some err" "\<forall>k<j. read_fault e k = None"
    using first_fault [of "read_fault e" i] h by blast
  have "buildStats (clock e) (read_fault e) db (requested_days req) = Inl err"
    using h j by (intro buildStats_fault [of j]) auto
  then have "get_stats e req s = (Replied (json 500 (StatsQueryFailed (error_text err))), s)"
    using assms h db by (simp add: get_stats_def)
  then show "\<exists>detail. get_stats e req s = (Replied (json 500 (StatsQueryFailed detail)), s)"
    by blast
qed

theorem stats_failure_modes_witness:
  "handle quiet_env admin_request broken_server
     = (Replied (json 503 (RedisUnavailable (Some ''connect ECONNREFUSED''))), broken_server)
   \<and> handle faulty_env admin_request live_server
     = (Replied (json 500 (StatsQueryFailed ''Connection is closed.'')), live_server)"
proof -
  have a: "adminToken broken_server \<noteq> []" "suppliedToken admin_request = Some (adminToken broken_server)"
    "adminToken live_server \<noteq> []" "suppliedToken admin_request = Some (adminToken live_server)"
    by (simp_all add: broken_server_def live_server_def example_tokens)
  have b: "\<not> connected (redisState broken_server)"
    "lastError (redisState broken_server) = Some ''connect ECONNREFUSED''"
    by (simp_all add: broken_server_def)
  have c: "redis live_server \<noteq> None \<and> connected (redisState live_server)
           \<and> int 1 < requested_days admin_request
           \<and> read_fault faulty_env 1 = Some (ErrorObject ''Connection is closed.'')
           \<and> (\<forall>k<1. read_fault faulty_env k = None)"
    by (simp add: live_server_def example_days faulty_env_def)
  have h: "handle quiet_env admin_request broken_server = get_stats quiet_env admin_request broken_server"
    "handle faulty_env admin_request live_server = get_stats faulty_env admin_request live_server"
    by (simp_all add: handle_def admin_request_def)
  show ?thesis
    using stats_failure_modes [OF a(1,2), of quiet_env 1 "ErrorObject ''x''" 1]
      stats_failure_modes [OF a(3,4), of faulty_env 1 "ErrorObject ''Connection is closed.''" 1]
      b c h
    by simp
qed

section \<open>Replay\<close>

text \<open>
  Claim C8. Ingesting the same pair of event name and session identifier twice on the same day
  adds exactly 2 to the day's counter of that event name and at most 1 to the cardinality of the
  day's Session Set. For every event name other than \<^verbatim>\<open>_total\<close> this holds (\<open>replay_counts\<close>, used
  below for \<^verbatim>\<open>build_trace\<close>). The
  valid event name \<^verbatim>\<open>_total\<close> is counted twice per ingestion: replayed once on the empty store, its
  counter goes from 0 to 4, while the Session Set holds the one session identifier.
\<close>

theorem replayed_total_key_counts_four:
  "isValidEventName (JStr ''_total'') \<and> isValidSessionId (JStr ''abc-123'')
   \<and> field_count (hashes empty_db ''keccak:events:2026-11-02'') ''_total'' = 0
   \<and> map_option (\<lambda>db. (field_count (hashes db ''keccak:events:2026-11-02'') ''_total'',
                         scard db ''keccak:sessions:2026-11-02''))
        (redis (ingest_all [(example_now, Committed, ''_total'', JStr ''abc-123''),
                            (example_now, Committed, ''_total'', JStr ''abc-123'')] live_server))
       = Some (4, 1)
   \<and> (case redis (ingest_all [(example_now, Committed, ''build_trace'', JStr ''abc-123''),
                               (example_now, Committed, ''build_trace'', JStr ''abc-123'')] live_server) of
         Some db \<Rightarrow> field_count (hashes db ''keccak:events:2026-11-02'') ''build_trace'' = 2
                   \<and> scard db ''keccak:sessions:2026-11-02'' \<le> 1
       | None \<Rightarrow> False)"
proof -
  let ?tx = "store_tx ''2026-11-02'' ''_total'' (JStr ''abc-123'')"
  have 1: "storeEvent example_now Committed ''_total'' (JStr ''abc-123'') live_server
             = (True, live_server\<lparr>redis := Some (exec empty_db ?tx)\<rparr>)"
    by (simp add: storeEvent_committed live_server_def example_dates)
  have 2: "storeEvent example_now Committed ''_total'' (JStr ''abc-123'')
             (live_server\<lparr>redis := Some (exec empty_db ?tx)\<rparr>)
             = (True, live_server\<lparr>redis := Some (exec (exec empty_db ?tx) ?tx)\<rparr>)"
    by (simp add: storeEvent_committed live_server_def example_dates)
  have h: "hashes (exec (exec empty_db ?tx) ?tx) ''keccak:events:2026-11-02'' = [(''_total'', 4)]"
    by (simp add: hashes_store_tx event_key_def empty_db_def)
  have c: "sets (exec (exec empty_db ?tx) ?tx) ''keccak:sessions:2026-11-02'' = {|''abc-123''|}"
    using abc_is_valid_session by (simp add: sets_store_tx session_key_def empty_db_def)
  have z: "field_count (hashes empty_db ''keccak:events:2026-11-02'') ''_total'' = 0"
    by (simp add: hgetall_def empty_db_def field_count_def)
  have f: "fcard {|''abc-123''|} = 1"
    by (simp add: fcard_finsert_if)
  have v: "field_count [(''_total'', 4)] ''_total'' = 4"
    by (simp add: field_count_def)
  let ?bt = "store_tx ''2026-11-02'' ''build_trace'' (JStr ''abc-123'')"
  have 3: "storeEvent example_now Committed ''build_trace'' (JStr ''abc-123'') live_server
             = (True, live_server\<lparr>redis := Some (exec empty_db ?bt)\<rparr>)"
    by (simp add: storeEvent_committed live_server_def example_dates)
  have 4: "storeEvent example_now Committed ''build_trace'' (JStr ''abc-123'')
             (live_server\<lparr>redis := Some (exec empty_db ?bt)\<rparr>)
             = (True, live_server\<lparr>redis := Some (exec (exec empty_db ?bt) ?bt)\<rparr>)"
    by (simp add: storeEvent_committed live_server_def example_dates)
  have 5: "redis (ingest_all [(example_now, Committed, ''build_trace'', JStr ''abc-123''),
                              (example_now, Committed, ''build_trace'', JStr ''abc-123'')] live_server)
             = Some (exec (exec empty_db ?bt) ?bt)"
    by (simp add: 3 4)
  have 6: "redis live_server = Some empty_db" "connected (redisState live_server)"
    by (simp_all add: live_server_def)
  have 7: "field_count (hashes empty_db (event_key ''2026-11-02'')) ''build_trace'' = 0"
    "scard empty_db (session_key ''2026-11-02'') = 0"
    by (simp_all add: hgetall_def scard_def empty_db_def field_count_def)
  have 8: "field_count (hashes (exec (exec empty_db ?bt) ?bt) (event_key ''2026-11-02'')) ''build_trace'' = 2
           \<and> scard (exec (exec empty_db ?bt) ?bt) (session_key ''2026-11-02'') \<le> 1"
    using replay_counts [OF _ 6 example_dates(1) example_dates(1) 5] by (simp add: 7)
  show ?thesis
    using total_is_valid_name abc_is_valid_session 8
    by (simp add: 1 2 3 4 h c f v hgetall_def scard_def z
          event_key_def session_key_def)
qed

section \<open>The empty body\<close>

text \<open>
  Claim C9. When the body of a \<^verbatim>\<open>POST /api/events\<close> request ends after zero bytes (the stream
  delivers no empty chunk, so no chunk at all), \<open>readJsonBody\<close> resolves to the empty object; the
  event field is then absent and the request is answered 400 \<^verbatim>\<open>invalid_event_name\<close>, not 400
  \<^verbatim>\<open>invalid_json\<close>.
\<close>

theorem empty_body_is_empty_object:
  assumes "\<forall>c\<in>set (body_chunks req). c \<noteq> []"
    and "length (concat (body_chunks req)) = 0"
    and "body_end req = End"
  shows "readJsonBody parse req maxBytes = Inr (JObj [])
    \<and> post_events e req s = (Replied (json 400 (ErrorBody ''invalid_event_name'')), s)
    \<and> post_events e req s \<noteq> (Replied (json 400 (ErrorBody ''invalid_json'')), s)"
proof -
  have "body_chunks req = []"
    using assms(1,2) by (rule no_bytes_no_chunks)
  then have r: "\<And>parse maxBytes. readJsonBody parse req maxBytes = Inr (JObj [])"
    using assms(3) by (simp add: readJsonBody_def)
  show ?thesis
    by (simp add: r post_events_def json_def)
qed

theorem empty_body_is_empty_object_witness:
  "readJsonBody (json_parse quiet_env) empty_post (64 * 1024) = Inr (JObj [])
   \<and> handle quiet_env empty_post live_server
       = (Replied (json 400 (ErrorBody ''invalid_event_name'')), live_server)"
proof -
  have a: "\<forall>c\<in>set (body_chunks empty_post). c \<noteq> []" by (simp add: empty_post_def)
  have b: "length (concat (body_chunks empty_post)) = 0" by (simp add: empty_post_def)
  have c: "body_end empty_post = End" by (simp add: empty_post_def)
  have d: "handle quiet_env empty_post live_server = post_events quiet_env empty_post live_server"
    by (simp add: handle_def empty_post_def)
  show ?thesis
    using empty_body_is_empty_object [OF a b c, of "json_parse quiet_env" "64 * 1024" quiet_env
        live_server] d
    by simp
qed

section \<open>The supplied token\<close>

text \<open>
  Claim C10. The supplied token of a statistics request is the header \<^verbatim>\<open>x-admin-token\<close> when that is
  truthy, and the query parameter \<^verbatim>\<open>token\<close> otherwise: with the header absent or empty the query
  parameter is what is compared with the configured token (the request is answered 401 exactly
  when the query parameter differs from it); a header that is not empty is the supplied token,
  whatever the query holds.
\<close>

theorem supplied_token_truthy_header:
  "(x_admin_token req = None \<or> x_admin_token req = Some [] \<longrightarrow>
      suppliedToken req = searchParams_get (searchParams req) ''token'')
   \<and> (x_admin_token req = Some h \<and> h \<noteq> [] \<longrightarrow> suppliedToken req = Some h)
   \<and> ((x_admin_token req = None \<or> x_admin_token req = Some []) \<and> adminToken s \<noteq> [] \<longrightarrow>
        (get_stats e req s = (Replied (json 401 (ErrorBody ''unauthorized'')), s)
           \<longleftrightarrow> searchParams_get (searchParams req) ''token'' \<noteq> Some (adminToken s)))"
  by (auto simp: get_stats_def suppliedToken_def json_def Let_def split: option.splits sum.splits)

theorem supplied_token_truthy_header_witness:
  "suppliedToken empty_header_request = Some ''s3cret''
   \<and> suppliedToken both_tokens_request = Some ''guess''
   \<and> get_stats quiet_env empty_header_request offline_server
        \<noteq> (Replied (json 401 (ErrorBody ''unauthorized'')), offline_server)"
proof -
  have a: "x_admin_token empty_header_request = Some []
           \<and> searchParams_get (searchParams empty_header_request) ''token'' = Some ''s3cret''"
    by (simp add: empty_header_request_def searchParams_get_def)
  have b: "x_admin_token both_tokens_request = Some ''guess'' \<and> ''guess'' \<noteq> []"
    by (simp add: both_tokens_request_def)
  have c: "adminToken offline_server = ''s3cret''"
    by (simp add: offline_server_def)
  show ?thesis
    using supplied_token_truthy_header [of empty_header_request "''x''" offline_server quiet_env]
      supplied_token_truthy_header [of both_tokens_request "''guess''" offline_server quiet_env]
      a b c
    by simp
qed

end
